theory Spec2Isabelle
  imports Complex_Main "HOL-Library.Sublist" "HOL-Library.Signed_Division"
begin

section \<open>Values exchanged with the HTTP layer\<close>

text \<open>
  The dashboard talks to two HTTP services through the browser's \<^verbatim>\<open>fetch\<close>. A call of
  \<^verbatim>\<open>fetch\<close> either rejects (a thrown network error) or resolves to a response, of which
  the code reads \<^verbatim>\<open>ok\<close>, \<^verbatim>\<open>status\<close>, \<^verbatim>\<open>statusText\<close> and the outcome of
  \<^verbatim>\<open>await response.json()\<close>, which rejects when the body is not JSON. A rejected promise
  is the \<open>Inl\<close> side of a sum, a resolved one the \<open>Inr\<close> side. The type of the parsed
  body is a parameter: the chat client reads it as \<^verbatim>\<open>any\<close>, the trending page declares it
  an \<^verbatim>\<open>ApiResponse\<close>.
\<close>

datatype js_error = Error string | TypeError string | SyntaxError string

text \<open>\<^verbatim>\<open>error.message\<close>\<close>

fun error_message :: "js_error \<Rightarrow> string" where
  "error_message (Error m) = m"
| "error_message (TypeError m) = m"
| "error_message (SyntaxError m) = m"

record 'body response =
  ok :: bool
  status :: nat
  statusText :: string
  json :: "js_error + 'body"

type_synonym 'body fetch_outcome = "js_error + 'body response"

section \<open>The retry wrapper of the chat client (app/search/page.tsx)\<close>

text \<open>
  \<^verbatim>\<open>exponentialBackoffFetch(url, options, maxRetries = 5)\<close> runs a \<^verbatim>\<open>for\<close> loop over
  \<^verbatim>\<open>attempt = 0 .. maxRetries - 1\<close> whose body is one \<^verbatim>\<open>try\<close>/\<^verbatim>\<open>catch\<close>. The body
  completes in one of three ways: it returns the response, it throws out of the function,
  or it sleeps for \<^verbatim>\<open>delay\<close> ms, doubles \<^verbatim>\<open>delay\<close> and continues with the next attempt.

  \<open>maxRetries\<close> is an attempt count and is modelled as a natural number (the guard
  \<^verbatim>\<open>attempt < maxRetries\<close> treats every non-positive number as \<open>0\<close>, and the one call
  in the repository leaves it at its default \<open>5\<close>); the comparisons with
  \<^verbatim>\<open>maxRetries - 1\<close> are written over \<open>int\<close>, so that the subtraction is the source's and not
  the truncating one of \<open>nat\<close>. \<^verbatim>\<open>delay\<close> is an unbounded natural number: the values
  \<open>1000 * 2 ^ k\<close> are exact in a JavaScript number far beyond any run that ends.
\<close>

datatype 'body completion = Return "'body response" | Throw js_error | Continue

text \<open>
  The statements of the \<^verbatim>\<open>try\<close> block, given what \<^verbatim>\<open>await fetch(url, options)\<close> did.
  The local \<^verbatim>\<open>errorMessage\<close> is computed and never read, so it has no counterpart here.
\<close>

definition try_block :: "'body fetch_outcome \<Rightarrow> nat \<Rightarrow> nat \<Rightarrow> 'body completion" where
  "try_block outcome maxRetries attempt =
     (case outcome of
        Inl network_error \<Rightarrow> Throw network_error
      | Inr response \<Rightarrow>
          if ok response then Return response
          else if status response = 429 \<and> int attempt < int maxRetries - 1 then Continue
          else Throw (Error (''API error: '' @ statusText response)))"

text \<open>The \<^verbatim>\<open>catch (error)\<close> block: it receives whatever the \<^verbatim>\<open>try\<close> block threw.\<close>

definition catch_block :: "js_error \<Rightarrow> nat \<Rightarrow> nat \<Rightarrow> 'body completion" where
  "catch_block error maxRetries attempt =
     (if int attempt < int maxRetries - 1 then Continue else Throw error)"

definition loop_body :: "'body fetch_outcome \<Rightarrow> nat \<Rightarrow> nat \<Rightarrow> 'body completion" where
  "loop_body outcome maxRetries attempt =
     (case try_block outcome maxRetries attempt of
        Throw error \<Rightarrow> catch_block error maxRetries attempt
      | Return response \<Rightarrow> Return response
      | Continue \<Rightarrow> Continue)"

text \<open>
  What a run did to the outside world: how many times it called \<^verbatim>\<open>fetch\<close>, and the
  delays it handed to \<^verbatim>\<open>setTimeout\<close>, in order. The environment is a function giving the
  outcome of the \<open>k\<close>-th call of \<^verbatim>\<open>fetch\<close> (counted from \<open>0\<close>) of this run.
\<close>

record effects =
  fetches :: nat
  waited :: "nat list"

function for_loop ::
  "(nat \<Rightarrow> 'body fetch_outcome) \<Rightarrow> nat \<Rightarrow> nat \<Rightarrow> nat \<Rightarrow> effects \<Rightarrow>
     (js_error + 'body response) \<times> effects"
where
  "for_loop fetch maxRetries attempt delay eff =
     (if attempt < maxRetries then
        (let outcome = fetch (fetches eff);
             eff1 = eff\<lparr>fetches := fetches eff + 1\<rparr>
         in case loop_body outcome maxRetries attempt of
              Return response \<Rightarrow> (Inr response, eff1)
            | Throw error \<Rightarrow> (Inl error, eff1)
            | Continue \<Rightarrow>
                for_loop fetch maxRetries (attempt + 1) (delay * 2)
                  (eff1\<lparr>waited := waited eff1 @ [delay]\<rparr>))
      else (Inl (Error ''Failed to fetch after all retries.''), eff))"
  by pat_completeness auto
termination
  by (relation "measure (\<lambda>(fetch, maxRetries, attempt, delay, eff). maxRetries - attempt)") auto

definition exponentialBackoffFetch ::
  "(nat \<Rightarrow> 'body fetch_outcome) \<Rightarrow> nat \<Rightarrow> (js_error + 'body response) \<times> effects"
where
  "exponentialBackoffFetch fetch maxRetries =
     for_loop fetch maxRetries 0 1000 \<lparr>fetches = 0, waited = []\<rparr>"

text \<open>
  Shorthands for the environments the properties speak about: a 429 response is one whose
  \<^verbatim>\<open>ok\<close> is false and whose \<^verbatim>\<open>status\<close> is 429.
\<close>

definition rate_limited :: "'body fetch_outcome \<Rightarrow> bool" where
  "rate_limited outcome =
     (case outcome of Inl _ \<Rightarrow> False | Inr r \<Rightarrow> \<not> ok r \<and> status r = 429)"

definition succeeded :: "'body fetch_outcome \<Rightarrow> bool" where
  "succeeded outcome = (case outcome of Inl _ \<Rightarrow> False | Inr r \<Rightarrow> ok r)"

text \<open>The error a failed last attempt leaves the wrapper with.\<close>

definition failure_error :: "'body fetch_outcome \<Rightarrow> js_error" where
  "failure_error outcome =
     (case outcome of Inl e \<Rightarrow> e | Inr r \<Rightarrow> Error (''API error: '' @ statusText r))"

definition total_wait :: "(js_error + 'body response) \<times> effects \<Rightarrow> nat" where
  "total_wait run = sum_list (waited (snd run))"

definition attempts_made :: "(js_error + 'body response) \<times> effects \<Rightarrow> nat" where
  "attempts_made run = fetches (snd run)"

definition too_many_requests :: "unit response" where
  "too_many_requests =
     \<lparr>ok = False, status = 429, statusText = ''Too Many Requests'',
      json = Inl (SyntaxError ''Unexpected end of JSON input'')\<rparr>"

definition server_error :: "unit response" where
  "server_error =
     \<lparr>ok = False, status = 500, statusText = ''Internal Server Error'',
      json = Inl (SyntaxError ''Unexpected end of JSON input'')\<rparr>"

definition ok_response :: "unit response" where
  "ok_response = \<lparr>ok = True, status = 200, statusText = ''OK'', json = Inr ()\<rparr>"

section \<open>JavaScript values read from an untyped JSON body\<close>

text \<open>
  \<^verbatim>\<open>callGeminiAPI\<close> keeps the parsed body as \<^verbatim>\<open>any\<close> and walks it with property reads,
  optional chaining and truthiness tests, so the body is modelled as a JavaScript value.
  Numbers are integers here: only whether a number is zero is ever observed. Strings are
  lists of characters; a source literal with characters outside ASCII is written through
  the bytes of the source file. An object is the list of its properties; a key is looked up
  from the front of the list.
\<close>

datatype js_value =
    JUndefined
  | JNull
  | JBool bool
  | JNumber int
  | JString string
  | JArray "js_value list"
  | JObject "(string \<times> js_value) list"

fun truthy :: "js_value \<Rightarrow> bool" where
  "truthy JUndefined = False"
| "truthy JNull = False"
| "truthy (JBool b) = b"
| "truthy (JNumber n) = (n \<noteq> 0)"
| "truthy (JString s) = (s \<noteq> [])"
| "truthy (JArray xs) = True"
| "truthy (JObject kvs) = True"

fun nullish :: "js_value \<Rightarrow> bool" where
  "nullish JUndefined = True"
| "nullish JNull = True"
| "nullish v = False"

definition own_property :: "(string \<times> js_value) list \<Rightarrow> string \<Rightarrow> js_value" where
  "own_property kvs k = (case map_of kvs k of None \<Rightarrow> JUndefined | Some v \<Rightarrow> v)"

text \<open>
  \<open>member v k\<close> is \<^verbatim>\<open>v.k\<close> on a value that is neither \<^verbatim>\<open>null\<close> nor \<^verbatim>\<open>undefined\<close>, for
  the property names the code reads (none of them is a built-in member of strings, arrays,
  numbers or booleans, so those values answer \<^verbatim>\<open>undefined\<close>).
\<close>

fun member :: "js_value \<Rightarrow> string \<Rightarrow> js_value" where
  "member (JObject kvs) k = own_property kvs k"
| "member v k = JUndefined"

text \<open>
  \<^verbatim>\<open>v.k\<close>: reading a property of \<^verbatim>\<open>null\<close> or \<^verbatim>\<open>undefined\<close> throws a TypeError. The
  wording of a TypeError's message is the engine's; the model fixes one.
\<close>

definition get_prop :: "js_value \<Rightarrow> string \<Rightarrow> js_error + js_value" where
  "get_prop v k =
     (if nullish v then Inl (TypeError (''Cannot read properties of null or undefined, reading '' @ k))
      else Inr (member v k))"

text \<open>\<^verbatim>\<open>v?.k\<close>: \<^verbatim>\<open>undefined\<close> on \<^verbatim>\<open>null\<close> and \<^verbatim>\<open>undefined\<close>.\<close>

definition opt_prop :: "js_value \<Rightarrow> string \<Rightarrow> js_value" where
  "opt_prop v k = (if nullish v then JUndefined else member v k)"

text \<open>
  \<^verbatim>\<open>v?.[0]\<close>: the first element of an array, the first character of a string, the
  property \<^verbatim>\<open>"0"\<close> of an object.
\<close>

fun first_element :: "js_value \<Rightarrow> js_value" where
  "first_element (JArray xs) = (case xs of [] \<Rightarrow> JUndefined | x # _ \<Rightarrow> x)"
| "first_element (JString s) = (case s of [] \<Rightarrow> JUndefined | c # _ \<Rightarrow> JString [c])"
| "first_element (JObject kvs) = own_property kvs ''0''"
| "first_element v = JUndefined"

definition opt_index0 :: "js_value \<Rightarrow> js_value" where
  "opt_index0 v = (if nullish v then JUndefined else first_element v)"

text \<open>
  \<^verbatim>\<open>v.includes(search)\<close> on a value that is neither \<^verbatim>\<open>null\<close> nor \<^verbatim>\<open>undefined\<close>: strings
  and arrays have the method; on anything else \<^verbatim>\<open>v.includes\<close> is not a function (a JSON
  value never is) and the call throws.
\<close>

fun call_includes :: "js_value \<Rightarrow> string \<Rightarrow> js_error + js_value" where
  "call_includes (JString s) search = Inr (JBool (sublist search s))"
| "call_includes (JArray xs) search = Inr (JBool (JString search \<in> set xs))"
| "call_includes v search = Inl (TypeError ''includes is not a function'')"

section \<open>The chat client's call of the generative-AI API (app/search/page.tsx)\<close>

datatype role = User | Model

record part =
  "text" :: js_value

record source =
  uri :: js_value
  title :: js_value

record ChatMessage =
  role :: role
  parts :: "part list"
  sources :: "source list option"

text \<open>\<^verbatim>\<open>result.candidates?.[0]\<close>\<close>

definition first_candidate :: "js_value \<Rightarrow> js_error + js_value" where
  "first_candidate result =
     (case get_prop result ''candidates'' of
        Inl e \<Rightarrow> Inl e
      | Inr candidates \<Rightarrow> Inr (opt_index0 candidates))"

text \<open>\<^verbatim>\<open>candidate.content?.parts?.[0]?.text\<close>, read once \<^verbatim>\<open>candidate\<close> is known to be truthy.\<close>

definition first_text :: "js_value \<Rightarrow> js_value" where
  "first_text candidate =
     opt_prop (opt_index0 (opt_prop (member candidate ''content'') ''parts'')) ''text''"

text \<open>
  The callback of \<^verbatim>\<open>groundingAttributions.map\<close>:
  \<^verbatim>\<open>{ uri: attribution.web?.uri, title: attribution.web?.title }\<close>.
\<close>

definition attribution_source :: "js_value \<Rightarrow> js_error + source" where
  "attribution_source attribution =
     (case get_prop attribution ''web'' of
        Inl e \<Rightarrow> Inl e
      | Inr web \<Rightarrow> Inr \<lparr>uri = opt_prop web ''uri'', title = opt_prop web ''title''\<rparr>)"

fun map_attributions :: "js_value list \<Rightarrow> js_error + source list" where
  "map_attributions [] = Inr []"
| "map_attributions (attribution # rest) =
     (case attribution_source attribution of
        Inl e \<Rightarrow> Inl e
      | Inr s \<Rightarrow>
          (case map_attributions rest of
             Inl e \<Rightarrow> Inl e
           | Inr ss \<Rightarrow> Inr (s # ss)))"

definition grounding_sources :: "js_value \<Rightarrow> js_error + source list" where
  "grounding_sources candidate =
     (let groundingMetadata = member candidate ''groundingMetadata'' in
      if truthy groundingMetadata \<and> truthy (member groundingMetadata ''groundingAttributions'')
      then
        (case member groundingMetadata ''groundingAttributions'' of
           JArray attributions \<Rightarrow>
             (case map_attributions attributions of
                Inl e \<Rightarrow> Inl e
              | Inr ss \<Rightarrow> Inr (filter (\<lambda>s. truthy (uri s) \<and> truthy (title s)) ss))
         | _ \<Rightarrow> Inl (TypeError ''groundingMetadata.groundingAttributions.map is not a function''))
      else Inr [])"

text \<open>\<^verbatim>\<open>candidate?.finishMessage?.includes(search)\<close>\<close>

definition finish_message_includes :: "js_value \<Rightarrow> string \<Rightarrow> js_error + js_value" where
  "finish_message_includes candidate search =
     (if nullish candidate then Inr JUndefined
      else let finishMessage = member candidate ''finishMessage'' in
        if nullish finishMessage then Inr JUndefined
        else call_includes finishMessage search)"

definition malformed_call_apology :: string where
  "malformed_call_apology =
     ''Apologies, there was a data processing issue with the API. Please simplify your question and ask again.''"

definition no_answer_apology :: string where
  "no_answer_apology =
     ''Sorry, I wasn'' @ [CHR 0xC3, CHR 0xA2, CHR 0xE2, CHR 0x82, CHR 0xAC, CHR 0xE2, CHR 0x84, CHR 0xA2] @
     ''t able to answer this question. Please try again after some time or rephrase your question.''"

definition network_error_text :: "js_error \<Rightarrow> string" where
  "network_error_text error =
     ''A Network/API error has occurred: '' @ error_message error @
     ''. Please check your network connection and try again.''"

text \<open>What the \<^verbatim>\<open>try\<close> block does with the parsed body \<^verbatim>\<open>result\<close>.\<close>

definition handle_result :: "js_value \<Rightarrow> js_error + ChatMessage" where
  "handle_result result =
     (case first_candidate result of
        Inl e \<Rightarrow> Inl e
      | Inr candidate \<Rightarrow>
          if truthy candidate \<and> truthy (first_text candidate) then
            (case grounding_sources candidate of
               Inl e \<Rightarrow> Inl e
             | Inr srcs \<Rightarrow>
                 Inr \<lparr>role = Model, parts = [\<lparr>text = first_text candidate\<rparr>], sources = Some srcs\<rparr>)
          else
            (case finish_message_includes candidate ''Malformed function call'' of
               Inl e \<Rightarrow> Inl e
             | Inr found \<Rightarrow>
                 let errorMessage =
                       (if truthy found then malformed_call_apology else no_answer_apology)
                 in Inr \<lparr>role = Model, parts = [\<lparr>text = JString errorMessage\<rparr>], sources = None\<rparr>))"

text \<open>The \<^verbatim>\<open>catch (error)\<close> block of \<^verbatim>\<open>callGeminiAPI\<close>.\<close>

definition error_reply :: "js_error \<Rightarrow> ChatMessage" where
  "error_reply error =
     \<lparr>role = Model, parts = [\<lparr>text = JString (network_error_text error)\<rparr>], sources = None\<rparr>"

text \<open>
  \<^verbatim>\<open>callGeminiAPI(chatHistory, currentQuery)\<close>. The two arguments only shape the request
  payload; what comes back is the environment's choice, so the model takes the environment
  (the outcomes of the successive \<^verbatim>\<open>fetch\<close> calls) in their place. The wrapper is called
  with its default \<^verbatim>\<open>maxRetries = 5\<close>.
\<close>

definition callGeminiAPI :: "(nat \<Rightarrow> js_value fetch_outcome) \<Rightarrow> ChatMessage" where
  "callGeminiAPI fetch =
     (case fst (exponentialBackoffFetch fetch 5) of
        Inl e \<Rightarrow> error_reply e
      | Inr response \<Rightarrow>
          (case json response of
             Inl e \<Rightarrow> error_reply e
           | Inr result \<Rightarrow>
               (case handle_result result of
                  Inl e \<Rightarrow> error_reply e
                | Inr reply \<Rightarrow> reply)))"

text \<open>
  A response "lacks a text part" when the test
  \<^verbatim>\<open>candidate && candidate.content?.parts?.[0]?.text\<close> of the source fails on it.
\<close>

definition has_text_part :: "js_value \<Rightarrow> bool" where
  "has_text_part result =
     (case first_candidate result of
        Inl e \<Rightarrow> False
      | Inr candidate \<Rightarrow> truthy candidate \<and> truthy (first_text candidate))"

text \<open>
  The \<^verbatim>\<open>finishMessage\<close> of the first candidate, as \<^verbatim>\<open>candidate?.finishMessage\<close> reads it,
  the values on which \<^verbatim>\<open>?.includes(...)\<close> does not throw, and the verdict of
  \<^verbatim>\<open>includes\<close> on them.
\<close>

definition finish_message :: "js_value \<Rightarrow> js_value" where
  "finish_message result =
     (case first_candidate result of
        Inl e \<Rightarrow> JUndefined
      | Inr candidate \<Rightarrow> opt_prop candidate ''finishMessage'')"

fun includes_applies :: "js_value \<Rightarrow> bool" where
  "includes_applies JUndefined = True"
| "includes_applies JNull = True"
| "includes_applies (JString s) = True"
| "includes_applies (JArray xs) = True"
| "includes_applies v = False"

fun includes_phrase :: "js_value \<Rightarrow> string \<Rightarrow> bool" where
  "includes_phrase (JString s) phrase = sublist phrase s"
| "includes_phrase (JArray xs) phrase = (JString phrase \<in> set xs)"
| "includes_phrase v phrase = False"

text \<open>The environment in which the first request is answered 200 with the given JSON body.\<close>

definition answers :: "js_value \<Rightarrow> nat \<Rightarrow> js_value fetch_outcome" where
  "answers body k = Inr \<lparr>ok = True, status = 200, statusText = ''OK'', json = Inr body\<rparr>"

text \<open>Sample bodies: a candidate without content, with and without a usable finish message.\<close>

definition numeric_finish_message :: js_value where
  "numeric_finish_message =
     JObject [(''candidates'', JArray [JObject [(''finishMessage'', JNumber 5)]])]"

definition malformed_call_body :: js_value where
  "malformed_call_body =
     JObject [(''candidates'',
       JArray [JObject [(''finishReason'', JString ''MALFORMED_FUNCTION_CALL''),
                        (''finishMessage'', JString ''Malformed function call: print(x)'')]])]"

section \<open>The trending page's data fetch (app/trending/page.tsx)\<close>

text \<open>
  The parsed body is declared \<^verbatim>\<open>ApiResponse\<close>; \<open>results = None\<close> stands for a missing or
  \<^verbatim>\<open>null\<close> \<^verbatim>\<open>results\<close>, the case \<^verbatim>\<open>result.results || []\<close> provides for. The numeric
  fields of a stock are only carried along.
\<close>

record TrendingStock =
  ticker :: string
  name :: string
  current_price :: real
  today_change_percent :: real
  volume_factor :: real
  price_change_5d :: real
  reason :: string

record RankedTrendingStock = TrendingStock +
  rank :: nat

record ApiResponse =
  success :: bool
  message :: string
  results :: "TrendingStock list option"

text \<open>\<^verbatim>\<open>(stock, index) => ({ ...stock, rank: index + 1 })\<close> mapped over a list.\<close>

definition with_rank :: "TrendingStock \<Rightarrow> nat \<Rightarrow> RankedTrendingStock" where
  "with_rank stock index =
     \<lparr>ticker = ticker stock, name = name stock, current_price = current_price stock,
      today_change_percent = today_change_percent stock, volume_factor = volume_factor stock,
      price_change_5d = price_change_5d stock, reason = reason stock, rank = index + 1\<rparr>"

definition rankedData :: "TrendingStock list \<Rightarrow> RankedTrendingStock list" where
  "rankedData stocks = map (\<lambda>(index, stock). with_rank stock index) (enumerate 0 stocks)"

text \<open>The decimal digits of \<^verbatim>\<open>response.status\<close> inside the first error message.\<close>

function decimal :: "nat \<Rightarrow> string" where
  "decimal n =
     (if n < 10 then [char_of (48 + n)] else decimal (n div 10) @ [char_of (48 + n mod 10)])"
  by pat_completeness auto
termination
  by (relation "measure (\<lambda>n. n)") auto

text \<open>
  The \<^verbatim>\<open>try\<close> block of \<^verbatim>\<open>getTrendingStocks\<close>, given the outcome of its one \<^verbatim>\<open>fetch\<close>.
\<close>

definition fetch_ranked :: "ApiResponse fetch_outcome \<Rightarrow> js_error + RankedTrendingStock list" where
  "fetch_ranked outcome =
     (case outcome of
        Inl network_error \<Rightarrow> Inl network_error
      | Inr response \<Rightarrow>
          if \<not> ok response then
            Inl (Error (''Problem fetching data from API: '' @ statusText response @
                        '' ('' @ decimal (status response) @ '')''))
          else
            (case json response of
               Inl e \<Rightarrow> Inl e
             | Inr result \<Rightarrow>
                 if \<not> success result then
                   Inl (Error (''API returned failure status: '' @ message result))
                 else
                   Inr (rankedData (case results result of None \<Rightarrow> [] | Some stocks \<Rightarrow> stocks))))"

text \<open>
  What a call did besides returning: the number of \<^verbatim>\<open>fetch\<close> calls and the errors handed
  to \<^verbatim>\<open>console.error\<close>.
\<close>

record fetch_log =
  fetch_calls :: nat
  logged :: "js_error list"

definition getTrendingStocks ::
  "(nat \<Rightarrow> ApiResponse fetch_outcome) \<Rightarrow> RankedTrendingStock list \<times> fetch_log"
where
  "getTrendingStocks fetch =
     (case fetch_ranked (fetch 0) of
        Inr ranked \<Rightarrow> (ranked, \<lparr>fetch_calls = 1, logged = []\<rparr>)
      | Inl error \<Rightarrow> ([], \<lparr>fetch_calls = 1, logged = [error]\<rparr>))"

text \<open>\<^verbatim>\<open>hasData\<close> of the page: the empty-state panel is rendered exactly when it is false.\<close>

definition hasData :: "RankedTrendingStock list \<Rightarrow> bool" where
  "hasData stocks = (length stocks > 0)"

definition sample_stock :: TrendingStock where
  "sample_stock =
     \<lparr>ticker = ''TCS.NS'', name = ''Tata Consultancy Services'', current_price = 4100,
      today_change_percent = 2, volume_factor = 3, price_change_5d = 5,
      reason = ''High volume''\<rparr>"

definition sample_results :: "TrendingStock list" where
  "sample_results = [sample_stock, sample_stock\<lparr>ticker := ''INFY.NS'', name := ''Infosys''\<rparr>]"

definition sample_trending_response :: "ApiResponse response" where
  "sample_trending_response =
     \<lparr>ok = True, status = 200, statusText = ''OK'',
      json = Inr \<lparr>success = True, message = ''ok'', results = Some sample_results\<rparr>\<rparr>"

definition service_unavailable :: "ApiResponse response" where
  "service_unavailable =
     \<lparr>ok = False, status = 503, statusText = ''Service Unavailable'',
      json = Inl (SyntaxError ''Unexpected token < in JSON at position 0'')\<rparr>"

section \<open>The sentiment badge of the detail page (components/StockDetails.tsx)\<close>

text \<open>The nested conditional inside the badge's \<^verbatim>\<open>className\<close> template.\<close>

definition sentiment_badge_colour :: "string \<Rightarrow> string" where
  "sentiment_badge_colour sentiment_status =
     (if sentiment_status = ''Positive'' then ''bg-green-100 text-green-800''
      else if sentiment_status = ''Negative'' then ''bg-red-100 text-red-800''
      else ''bg-yellow-100 text-yellow-800'')"

definition sentiment_badge_className :: "string \<Rightarrow> string" where
  "sentiment_badge_className sentiment_status =
     ''ml-3 px-3 py-1 text-sm font-semibold rounded-full '' @
     sentiment_badge_colour sentiment_status"

section \<open>The slideshow's index state (components/StockScene.tsx)\<close>

text \<open>
  \<^verbatim>\<open>currentIndex\<close> is a JavaScript number. The remainder \<^verbatim>\<open>a % b\<close> takes the sign of the
  dividend and is \<^verbatim>\<open>NaN\<close> for \<^verbatim>\<open>b = 0\<close>; \<open>None\<close> stands for \<^verbatim>\<open>NaN\<close>, which every later
  update hands on.
\<close>

type_synonym js_number = "int option"

definition js_rem :: "int \<Rightarrow> int \<Rightarrow> js_number" where
  "js_rem a b = (if b = 0 then None else Some (a smod b))"

text \<open>\<^verbatim>\<open>const slides = stocks.slice(0, 5)\<close>\<close>

definition slides :: "'a list \<Rightarrow> 'a list" where
  "slides stocks = take 5 stocks"

text \<open>
  The four state updates, each a function of the previous index and \<^verbatim>\<open>slides.length\<close>:
  the interval's callback, \<^verbatim>\<open>goToPrev\<close>, \<^verbatim>\<open>goToNext\<close> and an indicator's \<^verbatim>\<open>onClick\<close>;
  and the \<^verbatim>\<open>setCurrentIndex(0)\<close> of the effect's \<^verbatim>\<open>slides.length === 1\<close> branch.
\<close>

definition auto_advance :: "nat \<Rightarrow> js_number \<Rightarrow> js_number" where
  "auto_advance len currentIndex =
     (case currentIndex of None \<Rightarrow> None | Some prevIndex \<Rightarrow> js_rem (prevIndex + 1) (int len))"

definition goToPrev :: "nat \<Rightarrow> js_number \<Rightarrow> js_number" where
  "goToPrev len currentIndex =
     (case currentIndex of
        None \<Rightarrow> None
      | Some prevIndex \<Rightarrow> js_rem (prevIndex - 1 + int len) (int len))"

definition goToNext :: "nat \<Rightarrow> js_number \<Rightarrow> js_number" where
  "goToNext len currentIndex =
     (case currentIndex of None \<Rightarrow> None | Some prevIndex \<Rightarrow> js_rem (prevIndex + 1) (int len))"

definition indicator_click :: "nat \<Rightarrow> js_number \<Rightarrow> js_number" where
  "indicator_click index currentIndex = Some (int index)"

definition single_slide_reset :: "js_number \<Rightarrow> js_number" where
  "single_slide_reset currentIndex = Some 0"

datatype slideshow_event =
  AutoAdvance | GoToPrev | GoToNext | IndicatorClick nat | SingleSlideEffect

text \<open>
  Which events the rendered component can produce with \<open>len\<close> slides: the interval runs
  and the two arrow buttons exist only for \<^verbatim>\<open>slides.length > 1\<close>; there is one indicator
  per slide; the effect resets the index only for \<^verbatim>\<open>slides.length === 1\<close>; with no slide
  the component renders nothing.
\<close>

fun offered :: "nat \<Rightarrow> slideshow_event \<Rightarrow> bool" where
  "offered len AutoAdvance = (len > 1)"
| "offered len GoToPrev = (len > 1)"
| "offered len GoToNext = (len > 1)"
| "offered len (IndicatorClick index) = (index < len)"
| "offered len SingleSlideEffect = (len = 1)"

fun dispatch :: "nat \<Rightarrow> slideshow_event \<Rightarrow> js_number \<Rightarrow> js_number" where
  "dispatch len AutoAdvance currentIndex = auto_advance len currentIndex"
| "dispatch len GoToPrev currentIndex = goToPrev len currentIndex"
| "dispatch len GoToNext currentIndex = goToNext len currentIndex"
| "dispatch len (IndicatorClick index) currentIndex = indicator_click index currentIndex"
| "dispatch len SingleSlideEffect currentIndex = single_slide_reset currentIndex"

text \<open>The state after a sequence of events, from the initial \<^verbatim>\<open>useState(0)\<close>.\<close>

definition slideshow_run :: "nat \<Rightarrow> slideshow_event list \<Rightarrow> js_number" where
  "slideshow_run len events = fold (dispatch len) events (Some 0)"

text \<open>\<^verbatim>\<open>slides[currentIndex]\<close> is an element of \<^verbatim>\<open>slides\<close>.\<close>

definition in_bounds :: "nat \<Rightarrow> js_number \<Rightarrow> bool" where
  "in_bounds len currentIndex =
     (case currentIndex of None \<Rightarrow> False | Some i \<Rightarrow> 0 \<le> i \<and> i < int len)"

declare for_loop.simps [simp del]
declare decimal.simps [simp del]

section \<open>Properties of the retry wrapper\<close>

subsection \<open>One iteration\<close>

lemma loop_body_Return:
  "loop_body outcome m a = Return r \<Longrightarrow> outcome = Inr r \<and> ok r"
  by (auto simp: loop_body_def try_block_def catch_block_def
      split: sum.splits if_splits completion.splits)

lemma loop_body_Continue:
  "loop_body outcome m a = Continue \<Longrightarrow> \<not> succeeded outcome \<and> a + 1 < m"
  by (auto simp: loop_body_def try_block_def catch_block_def succeeded_def
      split: sum.splits if_splits completion.splits)

lemma loop_body_succeeded:
  "succeeded outcome \<Longrightarrow> \<exists>r. outcome = Inr r \<and> loop_body outcome m a = Return r"
  by (auto simp: loop_body_def try_block_def succeeded_def split: sum.splits)

lemma loop_body_failed:
  "\<not> succeeded outcome \<Longrightarrow> a + 1 < m \<Longrightarrow> loop_body outcome m a = Continue"
  by (auto simp: loop_body_def try_block_def catch_block_def succeeded_def split: sum.splits)

lemma loop_body_last:
  "\<not> succeeded outcome \<Longrightarrow> \<not> a + 1 < m \<Longrightarrow>
   loop_body outcome m a = Throw (failure_error outcome)"
  by (auto simp: loop_body_def try_block_def catch_block_def succeeded_def failure_error_def
      split: sum.splits)

lemma rate_limited_not_succeeded: "rate_limited outcome \<Longrightarrow> \<not> succeeded outcome"
  by (auto simp: rate_limited_def succeeded_def split: sum.splits)

subsection \<open>Unfolding the loop by one iteration\<close>

lemma for_loop_exit:
  "\<not> a < m \<Longrightarrow>
   for_loop fetch m a d eff = (Inl (Error ''Failed to fetch after all retries.''), eff)"
  by (subst for_loop.simps) simp

lemma for_loop_Return:
  "a < m \<Longrightarrow> loop_body (fetch (fetches eff)) m a = Return r \<Longrightarrow>
   for_loop fetch m a d eff = (Inr r, eff\<lparr>fetches := fetches eff + 1\<rparr>)"
  by (subst for_loop.simps) simp

lemma for_loop_Throw:
  "a < m \<Longrightarrow> loop_body (fetch (fetches eff)) m a = Throw e \<Longrightarrow>
   for_loop fetch m a d eff = (Inl e, eff\<lparr>fetches := fetches eff + 1\<rparr>)"
  by (subst for_loop.simps) simp

lemma for_loop_Continue:
  "a < m \<Longrightarrow> loop_body (fetch (fetches eff)) m a = Continue \<Longrightarrow>
   for_loop fetch m a d eff =
     for_loop fetch m (a + 1) (d * 2)
       (eff\<lparr>fetches := fetches eff + 1, waited := waited eff @ [d]\<rparr>)"
  by (subst for_loop.simps) simp

subsection \<open>The delays form a doubling sequence\<close>

lemma doubling_Suc:
  "map (\<lambda>i. d * 2 ^ i) [0..<Suc k] = (d::nat) # map (\<lambda>i. d * 2 * 2 ^ i) [0..<k]"
  by (simp add: map_upt_Suc del: upt_Suc)

lemma sum_doubling: "sum_list (map (\<lambda>i. d * 2 ^ i) [0..<k]) = (d::nat) * (2 ^ k - 1)"
proof (induction k)
  case 0
  show ?case by simp
next
  case (Suc k)
  have "(1::nat) \<le> 2 ^ k" by simp
  then have "d * (2 ^ k - 1) + d * 2 ^ k = d * (2 ^ Suc k - 1)"
    by (simp add: algebra_simps diff_mult_distrib2)
  with Suc show ?case by simp
qed

text \<open>
  Every run that enters the loop makes \<open>k + 1\<close> calls of \<^verbatim>\<open>fetch\<close> and sleeps \<open>k\<close> times,
  for some \<open>k\<close> below the number of attempts left; the sleeps double from the current delay.
\<close>

lemma for_loop_shape:
  "a < m \<Longrightarrow> \<exists>k. a + k < m \<and>
      fetches (snd (for_loop fetch m a d eff)) = fetches eff + k + 1 \<and>
      waited (snd (for_loop fetch m a d eff)) = waited eff @ map (\<lambda>i. d * 2 ^ i) [0..<k]"
proof (induction fetch m a d eff rule: for_loop.induct)
  case (1 fetch m a d eff)
  note lt = \<open>a < m\<close>
  show ?case
  proof (cases "loop_body (fetch (fetches eff)) m a")
    case (Return r')
    with lt show ?thesis by (intro exI[of _ 0]) (simp add: for_loop_Return)
  next
    case (Throw e)
    with lt show ?thesis by (intro exI[of _ 0]) (simp add: for_loop_Throw)
  next
    case Continue
    then have lt': "a + 1 < m" using loop_body_Continue by blast
    let ?eff = "eff\<lparr>fetches := fetches eff + 1, waited := waited eff @ [d]\<rparr>"
    have "\<exists>k. a + 1 + k < m \<and>
      fetches (snd (for_loop fetch m (a + 1) (d * 2) ?eff)) = fetches ?eff + k + 1 \<and>
      waited (snd (for_loop fetch m (a + 1) (d * 2) ?eff)) =
        waited ?eff @ map (\<lambda>i. d * 2 * 2 ^ i) [0..<k]"
      using "1.IH"[OF lt refl refl Continue] lt' by simp
    then obtain k where
      k: "a + 1 + k < m"
         "fetches (snd (for_loop fetch m (a + 1) (d * 2) ?eff)) = fetches ?eff + k + 1"
         "waited (snd (for_loop fetch m (a + 1) (d * 2) ?eff)) =
            waited ?eff @ map (\<lambda>i. d * 2 * 2 ^ i) [0..<k]"
      by blast
    have unf: "for_loop fetch m a d eff = for_loop fetch m (a + 1) (d * 2) ?eff"
      using lt Continue by (rule for_loop_Continue)
    show ?thesis
      apply (rule exI[of _ "Suc k"])
      unfolding unf k(2) k(3) doubling_Suc using k(1) by simp
  qed
qed

lemma for_loop_fetches_le:
  "fetches (snd (for_loop fetch m a d eff)) \<le> fetches eff + (m - a)"
proof (cases "a < m")
  case True
  from for_loop_shape[OF True, of fetch d eff] show ?thesis by auto
next
  case False
  then show ?thesis by (simp add: for_loop_exit)
qed

lemma for_loop_wait_le:
  "sum_list (waited (snd (for_loop fetch m a d eff)))
     \<le> sum_list (waited eff) + d * (2 ^ (m - a - 1) - 1)"
proof (cases "a < m")
  case True
  from for_loop_shape[OF True, of fetch d eff] obtain k where
    k: "a + k < m"
       "waited (snd (for_loop fetch m a d eff)) = waited eff @ map (\<lambda>i. d * 2 ^ i) [0..<k]"
    by blast
  from k(1) have "k \<le> m - a - 1" by simp
  then have "(2::nat) ^ k \<le> 2 ^ (m - a - 1)" by (intro power_increasing) simp_all
  then have "d * (2 ^ k - 1) \<le> d * (2 ^ (m - a - 1) - 1)"
    by (intro mult_le_mono2 diff_le_mono)
  then show ?thesis by (simp add: k(2) sum_doubling)
next
  case False
  then show ?thesis by (simp add: for_loop_exit)
qed

subsection \<open>Runs with a known environment\<close>

text \<open>\<open>N\<close> failed attempts with attempts to spare, then a success.\<close>

lemma for_loop_failures_then_success:
  "a + N < m \<Longrightarrow> (\<forall>i<N. \<not> succeeded (fetch (fetches eff + i))) \<Longrightarrow>
   fetch (fetches eff + N) = Inr r \<Longrightarrow> ok r \<Longrightarrow>
   for_loop fetch m a d eff =
     (Inr r, eff\<lparr>fetches := fetches eff + N + 1,
                 waited := waited eff @ map (\<lambda>i. d * 2 ^ i) [0..<N]\<rparr>)"
proof (induction N arbitrary: a d eff)
  case 0
  then have "loop_body (fetch (fetches eff)) m a = Return r"
    using loop_body_succeeded[of "fetch (fetches eff)" m a] by (simp add: succeeded_def)
  with 0 show ?case by (simp add: for_loop_Return)
next
  case (Suc N)
  let ?eff = "eff\<lparr>fetches := fetches eff + 1, waited := waited eff @ [d]\<rparr>"
  from Suc.prems have "\<not> succeeded (fetch (fetches eff))" by force
  with Suc.prems(1) have c: "loop_body (fetch (fetches eff)) m a = Continue"
    by (intro loop_body_failed) simp_all
  have unf: "for_loop fetch m a d eff = for_loop fetch m (a + 1) (d * 2) ?eff"
    using Suc.prems(1) c by (intro for_loop_Continue) simp_all
  have p1: "a + 1 + N < m" using Suc.prems(1) by simp
  have p2: "\<forall>i<N. \<not> succeeded (fetch (fetches ?eff + i))"
  proof (intro allI impI)
    fix i assume "i < N"
    then have "Suc i < Suc N" by simp
    with Suc.prems(2) have "\<not> succeeded (fetch (fetches eff + Suc i))" by blast
    then show "\<not> succeeded (fetch (fetches ?eff + i))" by simp
  qed
  have p3: "fetch (fetches ?eff + N) = Inr r" using Suc.prems(3) by simp
  show ?case
    unfolding unf Suc.IH[OF p1 p2 p3 Suc.prems(4)] doubling_Suc by simp
qed

text \<open>Every remaining attempt fails: the last one's error leaves the function.\<close>

lemma for_loop_persistent_failures:
  "m = a + Suc n \<Longrightarrow> (\<forall>i\<le>n. \<not> succeeded (fetch (fetches eff + i))) \<Longrightarrow>
   for_loop fetch m a d eff =
     (Inl (failure_error (fetch (fetches eff + n))),
      eff\<lparr>fetches := fetches eff + n + 1,
          waited := waited eff @ map (\<lambda>i. d * 2 ^ i) [0..<n]\<rparr>)"
proof (induction n arbitrary: a d eff)
  case 0
  then have "loop_body (fetch (fetches eff)) m a = Throw (failure_error (fetch (fetches eff)))"
    by (intro loop_body_last) simp_all
  with 0 show ?case by (simp add: for_loop_Throw)
next
  case (Suc n)
  let ?eff = "eff\<lparr>fetches := fetches eff + 1, waited := waited eff @ [d]\<rparr>"
  from Suc.prems have "\<not> succeeded (fetch (fetches eff))" by force
  with Suc.prems(1) have c: "loop_body (fetch (fetches eff)) m a = Continue"
    by (intro loop_body_failed) simp_all
  have unf: "for_loop fetch m a d eff = for_loop fetch m (a + 1) (d * 2) ?eff"
    using Suc.prems(1) c by (intro for_loop_Continue) simp_all
  have p1: "m = a + 1 + Suc n" using Suc.prems(1) by simp
  have p2: "\<forall>i\<le>n. \<not> succeeded (fetch (fetches ?eff + i))"
  proof (intro allI impI)
    fix i assume "i \<le> n"
    then have "Suc i \<le> Suc n" by simp
    with Suc.prems(2) have "\<not> succeeded (fetch (fetches eff + Suc i))" by blast
    then show "\<not> succeeded (fetch (fetches ?eff + i))" by simp
  qed
  show ?case
    unfolding unf Suc.IH[OF p1 p2] doubling_Suc by simp
qed

lemma persistent_failures:
  assumes "\<forall>k\<le>n. \<not> succeeded (fetch k)"
  shows "exponentialBackoffFetch fetch (Suc n) =
           (Inl (failure_error (fetch n)),
            \<lparr>fetches = n + 1, waited = map (\<lambda>i. 1000 * 2 ^ i) [0..<n]\<rparr>)"
  using for_loop_persistent_failures[of "Suc n" 0 n fetch "\<lparr>fetches = 0, waited = []\<rparr>" 1000] assms
  by (simp add: exponentialBackoffFetch_def)

lemma failures_then_success:
  assumes "N < m" "\<forall>k<N. \<not> succeeded (fetch k)" "fetch N = Inr r" "ok r"
  shows "exponentialBackoffFetch fetch m =
           (Inr r, \<lparr>fetches = N + 1, waited = map (\<lambda>i. 1000 * 2 ^ i) [0..<N]\<rparr>)"
  using for_loop_failures_then_success[of 0 N m fetch "\<lparr>fetches = 0, waited = []\<rparr>" r 1000] assms
  by (simp add: exponentialBackoffFetch_def)

lemma for_loop_returns_ok:
  "fst (for_loop fetch m a d eff) = Inr r \<Longrightarrow> ok r"
proof (induction fetch m a d eff rule: for_loop.induct)
  case (1 fetch m a d eff)
  show ?case
  proof (cases "a < m")
    case False
    with "1.prems" show ?thesis by (simp add: for_loop_exit)
  next
    case True
    show ?thesis
    proof (cases "loop_body (fetch (fetches eff)) m a")
      case (Return r')
      with True "1.prems" have "r' = r" by (simp add: for_loop_Return)
      with Return loop_body_Return show ?thesis by blast
    next
      case (Throw e)
      with True "1.prems" show ?thesis by (simp add: for_loop_Throw)
    next
      case Continue
      with True "1.prems" "1.IH"[OF True refl refl Continue] show ?thesis
        by (simp add: for_loop_Continue)
    qed
  qed
qed

subsection \<open>Statuses other than 429\<close>

text \<open>
  C1. The wrapper is meant to fail at once, without another attempt, on a response whose
  status is neither a success nor 429; the comment in the \<^verbatim>\<open>try\<close> block says that only 429
  and network errors are retried. The \<^verbatim>\<open>throw\<close> for such a status stands inside the
  \<^verbatim>\<open>try\<close> block, however, so the function's own \<^verbatim>\<open>catch\<close> block receives it and retries
  while attempts remain. With \<open>maxRetries = 5\<close>, a first response with status 500 and a
  second one that succeeds, the wrapper calls \<^verbatim>\<open>fetch\<close> twice, sleeps 1000 ms in between
  and returns the second response, where the property asks for a failure after the first call.
\<close>

theorem non_429_status_is_retried:
  "exponentialBackoffFetch (\<lambda>k. if k = 0 then Inr server_error else Inr ok_response) 5 =
     (Inr ok_response, \<lparr>fetches = 2, waited = [1000]\<rparr>)"
  using failures_then_success
    [of 1 5 "\<lambda>k. if k = 0 then Inr server_error else Inr ok_response" ok_response]
  by (simp add: succeeded_def server_error_def ok_response_def)

subsection \<open>Total waiting time\<close>

text \<open>
  The run that sleeps most is the one in which every attempt gets a 429. With
  \<open>maxRetries = 5\<close> it sleeps 1000 + 2000 + 4000 + 8000 = 15000 ms: there is no sleep after
  the last attempt. The formula \<open>1000 * (2 ^ maxRetries - 1)\<close> gives 31000 ms.
\<close>

theorem persistent_429_waits_15000:
  "total_wait (exponentialBackoffFetch (\<lambda>k. Inr too_many_requests) 5) = 15000 \<and>
   (15000::nat) \<noteq> 1000 * (2 ^ 5 - 1)"
  using persistent_failures[of 4 "\<lambda>k. Inr too_many_requests"]
  by (simp add: succeeded_def too_many_requests_def total_wait_def sum_doubling)

text \<open>
  C2, as amended. For every \<open>maxRetries \<ge> 1\<close>, no run of the wrapper waits longer in total
  than \<open>1000 * (2 ^ (maxRetries - 1) - 1)\<close> ms, and a run in which every attempt receives
  a 429 response waits exactly that long.
\<close>

theorem worst_case_total_wait:
  assumes "1 \<le> maxRetries"
  shows "total_wait (exponentialBackoffFetch fetch maxRetries)
           \<le> 1000 * (2 ^ (maxRetries - 1) - 1) \<and>
    ((\<forall>k<maxRetries. rate_limited (fetch k)) \<longrightarrow>
       total_wait (exponentialBackoffFetch fetch maxRetries) = 1000 * (2 ^ (maxRetries - 1) - 1))"
proof (intro conjI impI)
  show "total_wait (exponentialBackoffFetch fetch maxRetries)
          \<le> 1000 * (2 ^ (maxRetries - 1) - 1)"
    using for_loop_wait_le[of fetch maxRetries 0 1000 "\<lparr>fetches = 0, waited = []\<rparr>"]
    by (simp add: total_wait_def exponentialBackoffFetch_def)
next
  assume all: "\<forall>k<maxRetries. rate_limited (fetch k)"
  from assms obtain n where n: "maxRetries = Suc n" by (cases maxRetries) auto
  have "\<forall>k\<le>n. \<not> succeeded (fetch k)"
  proof (intro allI impI)
    fix k assume "k \<le> n"
    with n have "k < maxRetries" by simp
    with all show "\<not> succeeded (fetch k)" by (simp add: rate_limited_not_succeeded)
  qed
  from persistent_failures[OF this]
  show "total_wait (exponentialBackoffFetch fetch maxRetries) = 1000 * (2 ^ (maxRetries - 1) - 1)"
    by (simp add: total_wait_def n sum_doubling)
qed

theorem worst_case_total_wait_witness:
  "(1::nat) \<le> 3 \<and> rate_limited (Inr too_many_requests) \<and>
   total_wait (exponentialBackoffFetch (\<lambda>k. Inr too_many_requests) 3) \<le> 3000 \<and>
   total_wait (exponentialBackoffFetch (\<lambda>k. Inr too_many_requests) 3) = 3000"
proof -
  have h: "(1::nat) \<le> 3" by simp
  have r: "rate_limited (Inr too_many_requests)"
    by (simp add: rate_limited_def too_many_requests_def)
  from worst_case_total_wait[OF h, of "\<lambda>k. Inr too_many_requests"] r h
  show ?thesis by simp
qed

subsection \<open>Number of attempts\<close>

text \<open>
  C3. No run of the wrapper calls \<^verbatim>\<open>fetch\<close> more than \<open>maxRetries\<close> times. With
  \<open>maxRetries = 5\<close> and a 429 response to each of the five attempts, the wrapper calls
  \<^verbatim>\<open>fetch\<close> exactly five times and then throws: the error is the
  \<^verbatim>\<open>API error: <statusText>\<close> of the fifth response.
\<close>

theorem at_most_maxRetries_attempts:
  "attempts_made (exponentialBackoffFetch fetch maxRetries) \<le> maxRetries \<and>
   ((\<forall>k<5. rate_limited (fetch k)) \<longrightarrow>
      attempts_made (exponentialBackoffFetch fetch 5) = 5 \<and>
      fst (exponentialBackoffFetch fetch 5) = Inl (failure_error (fetch 4)))"
proof (intro conjI impI)
  show "attempts_made (exponentialBackoffFetch fetch maxRetries) \<le> maxRetries"
    using for_loop_fetches_le[of fetch maxRetries 0 1000 "\<lparr>fetches = 0, waited = []\<rparr>"]
    by (simp add: attempts_made_def exponentialBackoffFetch_def)
next
  assume all: "\<forall>k<5. rate_limited (fetch k)"
  have nos: "\<forall>k\<le>4. \<not> succeeded (fetch k)"
  proof (intro allI impI)
    fix k :: nat assume "k \<le> 4"
    then have "k < 5" by simp
    with all show "\<not> succeeded (fetch k)" by (simp add: rate_limited_not_succeeded)
  qed
  have five: "(5::nat) = Suc 4" by simp
  from persistent_failures[OF nos]
  show "attempts_made (exponentialBackoffFetch fetch 5) = 5"
    unfolding five by (simp add: attempts_made_def)
  from persistent_failures[OF nos]
  show "fst (exponentialBackoffFetch fetch 5) = Inl (failure_error (fetch 4))"
    unfolding five by simp
qed

theorem at_most_maxRetries_attempts_witness:
  "rate_limited (Inr too_many_requests) \<and>
   attempts_made (exponentialBackoffFetch (\<lambda>k. Inr too_many_requests) 5) = 5 \<and>
   fst (exponentialBackoffFetch (\<lambda>k. Inr too_many_requests) 5) =
     Inl (Error ''API error: Too Many Requests'')"
proof -
  have r: "rate_limited (Inr too_many_requests)"
    by (simp add: rate_limited_def too_many_requests_def)
  from at_most_maxRetries_attempts[of "\<lambda>k. Inr too_many_requests" 5] r
  show ?thesis by (simp add: failure_error_def too_many_requests_def)
qed

subsection \<open>Success after rate limiting\<close>

text \<open>
  C4. If \<open>N + 1 \<le> maxRetries\<close>, the first \<open>N\<close> attempts receive 429 responses and attempt
  \<open>N + 1\<close> receives a successful response, then the wrapper returns that response after
  exactly \<open>N + 1\<close> calls of \<^verbatim>\<open>fetch\<close>, having slept \<open>N\<close> times for
  1000, 2000, \<dots>, \<open>1000 * 2 ^ (N - 1)\<close> ms, which is \<open>1000 * (2 ^ N - 1)\<close> ms in total.
\<close>

theorem success_after_rate_limits:
  assumes "N + 1 \<le> maxRetries"
    and "\<forall>k<N. rate_limited (fetch k)"
    and "fetch N = Inr response"
    and "ok response"
  shows "exponentialBackoffFetch fetch maxRetries =
           (Inr response, \<lparr>fetches = N + 1, waited = map (\<lambda>i. 1000 * 2 ^ i) [0..<N]\<rparr>) \<and>
         attempts_made (exponentialBackoffFetch fetch maxRetries) = N + 1 \<and>
         total_wait (exponentialBackoffFetch fetch maxRetries) = 1000 * (2 ^ N - 1)"
proof -
  from assms(1) have lt: "N < maxRetries" by simp
  from assms(2) have "\<forall>k<N. \<not> succeeded (fetch k)"
    by (simp add: rate_limited_not_succeeded)
  from failures_then_success[OF lt this assms(3,4)]
  show ?thesis by (simp add: attempts_made_def total_wait_def sum_doubling)
qed

theorem success_after_rate_limits_witness:
  "(2::nat) + 1 \<le> 5 \<and> rate_limited (Inr too_many_requests) \<and> ok ok_response \<and>
   exponentialBackoffFetch (\<lambda>k. if k < 2 then Inr too_many_requests else Inr ok_response) 5 =
     (Inr ok_response, \<lparr>fetches = 3, waited = [1000, 2000]\<rparr>) \<and>
   total_wait
     (exponentialBackoffFetch (\<lambda>k. if k < 2 then Inr too_many_requests else Inr ok_response) 5) =
     3000"
proof -
  let ?fetch = "\<lambda>k::nat. if k < 2 then Inr too_many_requests else Inr ok_response"
  have h1: "(2::nat) + 1 \<le> 5" by simp
  have r: "rate_limited (Inr too_many_requests)"
    by (simp add: rate_limited_def too_many_requests_def)
  then have h2: "\<forall>k<2. rate_limited (?fetch k)" by simp
  have h3: "?fetch 2 = Inr ok_response" by simp
  have h4: "ok ok_response" by (simp add: ok_response_def)
  have upt: "[0..<2::nat] = [0, 1]" by (simp add: upt_rec)
  from success_after_rate_limits[OF h1 h2 h3 h4] r h4
  show ?thesis by (simp add: upt total_wait_def)
qed

subsection \<open>What the wrapper returns\<close>

text \<open>
  C9. Whenever the wrapper returns a response instead of throwing, that response has
  \<^verbatim>\<open>ok\<close> set: a response that is not a success is never handed to the caller.
\<close>

theorem returned_response_is_ok:
  "fst (exponentialBackoffFetch fetch maxRetries) = Inr response \<Longrightarrow> ok response"
  unfolding exponentialBackoffFetch_def by (rule for_loop_returns_ok)

theorem returned_response_is_ok_witness:
  "fst (exponentialBackoffFetch
         (\<lambda>k. if k = 0 then Inl (TypeError ''Failed to fetch'') else Inr ok_response) 5)
     = Inr ok_response \<and> ok ok_response"
proof -
  let ?fetch = "\<lambda>k::nat. if k = 0 then Inl (TypeError ''Failed to fetch'') else Inr ok_response"
  have "exponentialBackoffFetch ?fetch 5 =
          (Inr ok_response, \<lparr>fetches = 1 + 1, waited = map (\<lambda>i. 1000 * 2 ^ i) [0..<1]\<rparr>)"
    by (rule failures_then_success) (simp_all add: succeeded_def ok_response_def)
  then have h: "fst (exponentialBackoffFetch ?fetch 5) = Inr ok_response" by simp
  from returned_response_is_ok[OF h] h show ?thesis by simp
qed

section \<open>Properties of the chat client's API call\<close>

lemma first_success:
  "fetch 0 = Inr r \<Longrightarrow> ok r \<Longrightarrow> 0 < m \<Longrightarrow>
   exponentialBackoffFetch fetch m = (Inr r, \<lparr>fetches = 1, waited = []\<rparr>)"
  using failures_then_success[of 0 m fetch r] by simp

lemma callGeminiAPI_answers:
  "callGeminiAPI (answers body) =
     (case handle_result body of Inl e \<Rightarrow> error_reply e | Inr reply \<Rightarrow> reply)"
proof -
  let ?r = "\<lparr>ok = True, status = 200, statusText = ''OK'', json = Inr body\<rparr>"
  have "exponentialBackoffFetch (answers body) 5 = (Inr ?r, \<lparr>fetches = 1, waited = []\<rparr>)"
    by (rule first_success) (simp_all add: answers_def)
  then show ?thesis by (simp add: callGeminiAPI_def)
qed

lemma finish_message_includes_applies:
  "includes_applies (opt_prop candidate ''finishMessage'') \<Longrightarrow>
   \<exists>found. finish_message_includes candidate phrase = Inr found \<and>
     truthy found = includes_phrase (opt_prop candidate ''finishMessage'') phrase"
  by (cases "member candidate ''finishMessage''")
     (auto simp: finish_message_includes_def opt_prop_def Let_def split: if_splits)

text \<open>
  Two bodies without a text part that are not answered with an apology. On the body
  \<^verbatim>\<open>null\<close> the read \<^verbatim>\<open>result.candidates\<close> throws; on a candidate whose
  \<^verbatim>\<open>finishMessage\<close> is the number 5 the call \<^verbatim>\<open>finishMessage?.includes(...)\<close> throws. Both
  throws happen inside the \<^verbatim>\<open>try\<close> block, and the \<^verbatim>\<open>catch\<close> block answers with its
  \<^verbatim>\<open>A Network/API error has occurred\<close> message.
\<close>

theorem malformed_bodies_get_error_reply:
  "\<not> has_text_part JNull \<and>
   callGeminiAPI (answers JNull) =
     error_reply (TypeError ''Cannot read properties of null or undefined, reading candidates'') \<and>
   text (hd (parts (callGeminiAPI (answers JNull)))) \<noteq> JString malformed_call_apology \<and>
   text (hd (parts (callGeminiAPI (answers JNull)))) \<noteq> JString no_answer_apology \<and>
   \<not> has_text_part numeric_finish_message \<and>
   callGeminiAPI (answers numeric_finish_message) =
     error_reply (TypeError ''includes is not a function'') \<and>
   text (hd (parts (callGeminiAPI (answers numeric_finish_message))))
     \<noteq> JString malformed_call_apology \<and>
   text (hd (parts (callGeminiAPI (answers numeric_finish_message))))
     \<noteq> JString no_answer_apology"
  by (simp add: callGeminiAPI_answers has_text_part_def handle_result_def first_candidate_def
      get_prop_def numeric_finish_message_def opt_index0_def first_text_def opt_prop_def
      own_property_def finish_message_includes_def error_reply_def network_error_text_def
      malformed_call_apology_def no_answer_apology_def)

text \<open>
  C7, as amended. Whenever the wrapper returns a response whose body parses to a JSON value
  other than \<^verbatim>\<open>null\<close> that lacks a text part, and the \<^verbatim>\<open>finishMessage\<close> of its first
  candidate is absent, \<^verbatim>\<open>null\<close>, a string or an array, \<^verbatim>\<open>callGeminiAPI\<close> returns a
  model-role chat message without sources whose only part's text is one of two fixed
  apology strings: the "Apologies, there was a data processing issue" string when the
  finish message includes \<^verbatim>\<open>Malformed function call\<close>, and the "Sorry, I wasn't able to
  answer" string otherwise. Nothing of the body reaches the text.
\<close>

theorem malformed_response_gets_apology:
  assumes "fst (exponentialBackoffFetch fetch 5) = Inr response"
    and "json response = Inr result"
    and "\<not> nullish result"
    and "\<not> has_text_part result"
    and "includes_applies (finish_message result)"
  shows "callGeminiAPI fetch =
           \<lparr>role = Model,
            parts = [\<lparr>text = JString
                       (if includes_phrase (finish_message result) ''Malformed function call''
                        then malformed_call_apology else no_answer_apology)\<rparr>],
            sources = None\<rparr>"
proof -
  from assms(3) obtain candidate where c: "first_candidate result = Inr candidate"
    by (auto simp: first_candidate_def get_prop_def)
  with assms(4) have no_text: "\<not> (truthy candidate \<and> truthy (first_text candidate))"
    by (simp add: has_text_part_def)
  from c have fm: "finish_message result = opt_prop candidate ''finishMessage''"
    by (simp add: finish_message_def)
  from finish_message_includes_applies[OF assms(5)[unfolded fm]]
  obtain found where
    f: "finish_message_includes candidate ''Malformed function call'' = Inr found"
       "truthy found =
          includes_phrase (opt_prop candidate ''finishMessage'') ''Malformed function call''"
    by blast
  have "handle_result result =
      Inr \<lparr>role = Model,
            parts = [\<lparr>text = JString
                       (if includes_phrase (finish_message result) ''Malformed function call''
                        then malformed_call_apology else no_answer_apology)\<rparr>],
            sources = None\<rparr>"
    using c f by (simp add: handle_result_def fm no_text)
  with assms(1,2) show ?thesis by (simp add: callGeminiAPI_def)
qed

theorem malformed_response_gets_apology_witness:
  "fst (exponentialBackoffFetch (answers malformed_call_body) 5) =
     Inr \<lparr>ok = True, status = 200, statusText = ''OK'', json = Inr malformed_call_body\<rparr> \<and>
   \<not> nullish malformed_call_body \<and> \<not> has_text_part malformed_call_body \<and>
   includes_applies (finish_message malformed_call_body) \<and>
   callGeminiAPI (answers malformed_call_body) =
     \<lparr>role = Model, parts = [\<lparr>text = JString malformed_call_apology\<rparr>], sources = None\<rparr>"
proof -
  let ?r = "\<lparr>ok = True, status = 200, statusText = ''OK'', json = Inr malformed_call_body\<rparr>"
  have 1: "fst (exponentialBackoffFetch (answers malformed_call_body) 5) = Inr ?r"
    using first_success[of "answers malformed_call_body" ?r 5] by (simp add: answers_def)
  have 2: "json ?r = Inr malformed_call_body" by simp
  have 3: "\<not> nullish malformed_call_body" by (simp add: malformed_call_body_def)
  have 4: "\<not> has_text_part malformed_call_body"
    by (simp add: malformed_call_body_def has_text_part_def first_candidate_def get_prop_def
        opt_index0_def first_text_def opt_prop_def own_property_def)
  have fm: "finish_message malformed_call_body = JString ''Malformed function call: print(x)''"
    by (simp add: malformed_call_body_def finish_message_def first_candidate_def get_prop_def
        opt_index0_def opt_prop_def own_property_def)
  have 5: "includes_applies (finish_message malformed_call_body)" by (simp add: fm)
  have 6: "includes_phrase (finish_message malformed_call_body) ''Malformed function call''"
    unfolding fm includes_phrase.simps by code_simp
  from malformed_response_gets_apology[OF 1 2 3 4 5] 1 3 4 5 6 show ?thesis by simp
qed

section \<open>Properties of the trending page's data fetch\<close>

lemma length_rankedData: "length (rankedData stocks) = length stocks"
  by (simp add: rankedData_def)

lemma nth_rankedData: "i < length stocks \<Longrightarrow> rankedData stocks ! i = with_rank (stocks ! i) i"
  by (simp add: rankedData_def nth_enumerate_eq)

lemma truncate_with_rank: "TrendingStock.truncate (with_rank stock i) = stock"
  by (simp add: with_rank_def TrendingStock.truncate_def)

lemma rank_with_rank: "rank (with_rank stock i) = i + 1"
  by (simp add: with_rank_def)

text \<open>
  C5. When the API answers with a list of \<open>K\<close> trending stocks, \<^verbatim>\<open>getTrendingStocks\<close>
  returns \<open>K\<close> ranked stocks in the order of the response: the stock at position \<open>index\<close>
  is the response's stock at that position, with rank \<open>index + 1\<close>.
\<close>

theorem rank_is_index_plus_one:
  assumes "fetch 0 = Inr response" and "ok response" and "json response = Inr result"
    and "success result" and "results result = Some stocks"
  shows "length (fst (getTrendingStocks fetch)) = length stocks \<and>
         (\<forall>index < length stocks.
            rank (fst (getTrendingStocks fetch) ! index) = index + 1 \<and>
            TrendingStock.truncate (fst (getTrendingStocks fetch) ! index) = stocks ! index)"
proof -
  have "fst (getTrendingStocks fetch) = rankedData stocks"
    using assms by (simp add: getTrendingStocks_def fetch_ranked_def)
  then show ?thesis
    by (simp add: length_rankedData nth_rankedData truncate_with_rank rank_with_rank)
qed

theorem rank_is_index_plus_one_witness:
  "ok sample_trending_response \<and>
   json sample_trending_response =
     Inr \<lparr>success = True, message = ''ok'', results = Some sample_results\<rparr> \<and>
   length (fst (getTrendingStocks (\<lambda>k. Inr sample_trending_response))) = 2 \<and>
   rank (fst (getTrendingStocks (\<lambda>k. Inr sample_trending_response)) ! 0) = 1 \<and>
   rank (fst (getTrendingStocks (\<lambda>k. Inr sample_trending_response)) ! 1) = 2 \<and>
   ticker (fst (getTrendingStocks (\<lambda>k. Inr sample_trending_response)) ! 1) = ''INFY.NS''"
proof -
  let ?fetch = "\<lambda>k::nat. (Inr sample_trending_response :: ApiResponse fetch_outcome)"
  let ?result = "\<lparr>success = True, message = ''ok'', results = Some sample_results\<rparr>"
  have 1: "?fetch 0 = Inr sample_trending_response" by simp
  have 2: "ok sample_trending_response" by (simp add: sample_trending_response_def)
  have 3: "json sample_trending_response = Inr ?result"
    by (simp add: sample_trending_response_def)
  have 4: "success ?result" by simp
  have 5: "results ?result = Some sample_results" by simp
  have len: "length sample_results = 2" by (simp add: sample_results_def)
  have t: "ticker (TrendingStock.truncate r) = ticker r" for r :: RankedTrendingStock
    by (simp add: TrendingStock.truncate_def)
  from rank_is_index_plus_one[OF 1 2 3 4 5]
  have all: "length (fst (getTrendingStocks ?fetch)) = 2"
    "\<forall>index<2. rank (fst (getTrendingStocks ?fetch) ! index) = index + 1 \<and>
       TrendingStock.truncate (fst (getTrendingStocks ?fetch) ! index) = sample_results ! index"
    by (simp_all add: len)
  from all(2) have r0: "rank (fst (getTrendingStocks ?fetch) ! 0) = 1" by force
  from all(2) have r1: "rank (fst (getTrendingStocks ?fetch) ! 1) = 2" by force
  from all(2) have "TrendingStock.truncate (fst (getTrendingStocks ?fetch) ! 1) = sample_results ! 1"
    by force
  then have "ticker (TrendingStock.truncate (fst (getTrendingStocks ?fetch) ! 1)) = ''INFY.NS''"
    by (simp add: sample_results_def)
  then have t1: "ticker (fst (getTrendingStocks ?fetch) ! 1) = ''INFY.NS''" by (simp add: t)
  from 2 3 all(1) r0 r1 t1 show ?thesis by simp
qed

text \<open>
  C8. \<^verbatim>\<open>getTrendingStocks\<close> always returns a list and calls \<^verbatim>\<open>fetch\<close> exactly once,
  whatever the outcome. When \<^verbatim>\<open>fetch\<close> rejects, when the response is not ok, when its
  body does not parse, or when the body's \<^verbatim>\<open>success\<close> is false, the error is caught and
  logged and the returned list is empty, so that the page's \<^verbatim>\<open>hasData\<close> is false and the
  empty-state panel is shown.
\<close>

theorem getTrendingStocks_failure_is_empty_list:
  "fetch_calls (snd (getTrendingStocks fetch)) = 1 \<and>
   ((case fetch 0 of
       Inl network_error \<Rightarrow> True
     | Inr response \<Rightarrow> \<not> ok response \<or>
         (case json response of Inl e \<Rightarrow> True | Inr result \<Rightarrow> \<not> success result))
    \<longrightarrow> fst (getTrendingStocks fetch) = [] \<and>
        \<not> hasData (fst (getTrendingStocks fetch)) \<and>
        length (logged (snd (getTrendingStocks fetch))) = 1)"
  by (auto simp: getTrendingStocks_def fetch_ranked_def hasData_def split: sum.splits)

theorem getTrendingStocks_failure_is_empty_list_witness:
  "\<not> ok service_unavailable \<and>
   fetch_calls (snd (getTrendingStocks (\<lambda>k. Inr service_unavailable))) = 1 \<and>
   fst (getTrendingStocks (\<lambda>k. Inr service_unavailable)) = [] \<and>
   \<not> hasData (fst (getTrendingStocks (\<lambda>k. Inr service_unavailable)))"
proof -
  have h: "\<not> ok service_unavailable" by (simp add: service_unavailable_def)
  from getTrendingStocks_failure_is_empty_list[of "\<lambda>k. Inr service_unavailable"] h
  show ?thesis by (simp add: hasData_def)
qed

section \<open>Properties of the sentiment badge\<close>

text \<open>
  C6. The badge's colour classes are the green ones for the sentiment status
  \<^verbatim>\<open>Positive\<close>, the red ones for \<^verbatim>\<open>Negative\<close> and the yellow ones for \<^verbatim>\<open>Neutral\<close>.
\<close>

theorem sentiment_badge_colours:
  "sentiment_badge_colour ''Positive'' = ''bg-green-100 text-green-800'' \<and>
   sentiment_badge_colour ''Negative'' = ''bg-red-100 text-red-800'' \<and>
   sentiment_badge_colour ''Neutral'' = ''bg-yellow-100 text-yellow-800''"
  by (simp add: sentiment_badge_colour_def)

section \<open>Properties of the slideshow's index\<close>

lemma js_rem_in_bounds:
  "0 \<le> a \<Longrightarrow> 0 < len \<Longrightarrow> in_bounds len (js_rem a (int len))"
  by (simp add: js_rem_def in_bounds_def signed_modulo_int_def sgn_if)

lemma in_boundsE:
  assumes "in_bounds len currentIndex"
  obtains i where "currentIndex = Some i" "0 \<le> i" "i < int len"
  using assms by (auto simp: in_bounds_def split: option.splits)

lemma auto_advance_in_bounds:
  assumes "0 < len" "in_bounds len currentIndex"
  shows "in_bounds len (auto_advance len currentIndex)"
proof -
  from assms(2) obtain i where i: "currentIndex = Some i" "0 \<le> i" by (rule in_boundsE)
  from i(2) have "0 \<le> i + 1" by simp
  from js_rem_in_bounds[OF this assms(1)] show ?thesis by (simp add: auto_advance_def i(1))
qed

lemma goToNext_in_bounds:
  assumes "0 < len" "in_bounds len currentIndex"
  shows "in_bounds len (goToNext len currentIndex)"
proof -
  from assms(2) obtain i where i: "currentIndex = Some i" "0 \<le> i" by (rule in_boundsE)
  from i(2) have "0 \<le> i + 1" by simp
  from js_rem_in_bounds[OF this assms(1)] show ?thesis by (simp add: goToNext_def i(1))
qed

lemma goToPrev_in_bounds:
  assumes "0 < len" "in_bounds len currentIndex"
  shows "in_bounds len (goToPrev len currentIndex)"
proof -
  from assms(2) obtain i where i: "currentIndex = Some i" "0 \<le> i" by (rule in_boundsE)
  from i(2) assms(1) have "0 \<le> i - 1 + int len" by simp
  from js_rem_in_bounds[OF this assms(1)] show ?thesis by (simp add: goToPrev_def i(1))
qed

lemma dispatch_in_bounds:
  assumes "0 < len" "in_bounds len currentIndex" "offered len event"
  shows "in_bounds len (dispatch len event currentIndex)"
proof (cases event)
  case AutoAdvance
  with assms show ?thesis by (simp add: auto_advance_in_bounds)
next
  case GoToPrev
  with assms show ?thesis by (simp add: goToPrev_in_bounds)
next
  case GoToNext
  with assms show ?thesis by (simp add: goToNext_in_bounds)
next
  case (IndicatorClick i)
  with assms(3) show ?thesis by (simp add: indicator_click_def in_bounds_def)
next
  case SingleSlideEffect
  with assms(1) show ?thesis by (simp add: single_slide_reset_def in_bounds_def)
qed

lemma fold_dispatch_in_bounds:
  "0 < len \<Longrightarrow> in_bounds len st \<Longrightarrow> \<forall>e\<in>set events. offered len e \<Longrightarrow>
   in_bounds len (fold (dispatch len) events st)"
  by (induction events arbitrary: st) (simp_all add: dispatch_in_bounds)

text \<open>
  C10. For a fixed, non-empty list of slides, after any sequence of the operations the component
  offers (the interval's advance, \<^verbatim>\<open>goToPrev\<close>, \<^verbatim>\<open>goToNext\<close>, a click on one of the
  indicators, the single-slide reset), \<^verbatim>\<open>currentIndex\<close> is a number \<open>i\<close> with
  \<open>0 \<le> i < slides.length\<close>, so \<^verbatim>\<open>slides[currentIndex]\<close> is an element of the list.
\<close>

theorem currentIndex_stays_in_range:
  assumes "stocks \<noteq> []" and "\<forall>e\<in>set events. offered (length (slides stocks)) e"
  shows "\<exists>i. slideshow_run (length (slides stocks)) events = Some i \<and> 0 \<le> i \<and>
             i < int (length (slides stocks)) \<and> nat i < length (slides stocks)"
proof -
  let ?len = "length (slides stocks)"
  from assms(1) have pos: "0 < ?len" by (simp add: slides_def)
  have "in_bounds ?len (Some 0)" using pos by (simp add: in_bounds_def)
  from fold_dispatch_in_bounds[OF pos this assms(2)]
  show ?thesis by (auto simp: slideshow_run_def in_bounds_def split: option.splits)
qed

theorem currentIndex_stays_in_range_witness:
  "sample_results \<noteq> [] \<and> length (slides sample_results) = 2 \<and>
   offered 2 GoToPrev \<and> offered 2 AutoAdvance \<and> offered 2 (IndicatorClick 0) \<and>
   offered 2 GoToNext \<and>
   (\<exists>i. slideshow_run (length (slides sample_results))
          [GoToPrev, AutoAdvance, IndicatorClick 0, GoToNext] = Some i \<and> 0 \<le> i \<and>
        i < int (length (slides sample_results)) \<and> nat i < length (slides sample_results))"
proof -
  have ne: "sample_results \<noteq> []" by (simp add: sample_results_def)
  have len: "length (slides sample_results) = 2" by (simp add: sample_results_def slides_def)
  have off: "\<forall>e\<in>set [GoToPrev, AutoAdvance, IndicatorClick 0, GoToNext].
               offered (length (slides sample_results)) e"
    by (simp add: len)
  from currentIndex_stays_in_range[OF ne off] ne len show ?thesis by simp
qed

end
